theory Spec2Isabelle
  imports Complex_Main "HOL-Library.AList"
begin

section \<open>Values, columns and tables\<close>

text \<open>
  The notebook \<^verbatim>\<open>data_integrity_curr_vs_prior_peak_chart.ipynb\<close> works on one pandas
  table, \<^verbatim>\<open>covid_df\<close>, read from the New York Times county file. The model keeps the
  table column by column, as pandas does:
  \<^item> a numeric column is a list of \<open>rat option\<close>, \<open>None\<close> standing for NaN. Finite
    floating-point values are idealised as exact rationals (no rounding);
  \<^item> the column \<^verbatim>\<open>fips\<close> (read with \<^verbatim>\<open>dtype=str\<close>) is a list of \<open>string option\<close>,
    \<open>None\<close> standing for a missing key (NaN);
  \<^item> the column \<^verbatim>\<open>date\<close> (read with \<^verbatim>\<open>parse_dates\<close>) is a list of \<open>int option\<close>: the
    day number counted from 1970-01-01, \<open>None\<close> standing for NaT;
  \<^item> the other columns are kept by name in an association list, in the order of
    their creation. Row \<open>i\<close> of the table is position \<open>i\<close> of every column; the index of
    the table is the default one, \<open>0, 1, 2, ...\<close>.
  A pandas Series is a list of (index label, value) pairs.
\<close>

type_synonym column = "rat option list"

type_synonym series = "(nat \<times> rat option) list"

record frame =
  fips :: "string option list"
  date :: "int option list"
  cols :: "(string \<times> column) list"

datatype exn = KeyError string | ZeroDivisionError | ValueError string

text \<open>The three date literals of the notebook, as day numbers.\<close>

definition d_2020_06_01 :: int where
  "d_2020_06_01 = 18414"

definition d_2020_10_01 :: int where
  "d_2020_10_01 = 18536"

definition d_2021_02_06 :: int where
  "d_2021_02_06 = 18664"

text \<open>\<^verbatim>\<open>df[c]\<close> raises KeyError for a column that is not there; \<^verbatim>\<open>df[c] = xs\<close> replaces
  the column in place or appends a new one.\<close>

definition get_col :: "frame \<Rightarrow> string \<Rightarrow> exn + column" where
  "get_col df c = (case map_of (cols df) c of None \<Rightarrow> Inl (KeyError c) | Some xs \<Rightarrow> Inr xs)"

definition set_col :: "frame \<Rightarrow> string \<Rightarrow> column \<Rightarrow> frame" where
  "set_col df c xs = df\<lparr>cols := AList.update c xs (cols df)\<rparr>"

subsection \<open>Boolean masks\<close>

text \<open>
  \<^verbatim>\<open>df['fips'] == k\<close>, \<^verbatim>\<open>df['date'] < t\<close>, \<^verbatim>\<open>df['date'] > t\<close>, \<^verbatim>\<open>m1 & m2\<close> and the
  selection \<^verbatim>\<open>xs[mask]\<close>. A comparison with NaN or NaT is False.
\<close>

definition col_eq :: "string option list \<Rightarrow> string option \<Rightarrow> bool list" where
  "col_eq fs k = map (\<lambda>x. x \<noteq> None \<and> x = k) fs"

definition date_lt :: "int option list \<Rightarrow> int \<Rightarrow> bool list" where
  "date_lt ds t = map (\<lambda>d. case d of None \<Rightarrow> False | Some x \<Rightarrow> x < t) ds"

definition date_gt :: "int option list \<Rightarrow> int \<Rightarrow> bool list" where
  "date_gt ds t = map (\<lambda>d. case d of None \<Rightarrow> False | Some x \<Rightarrow> t < x) ds"

definition mask_and :: "bool list \<Rightarrow> bool list \<Rightarrow> bool list" where
  "mask_and a b = map2 (\<and>) a b"

definition select :: "bool list \<Rightarrow> 'a list \<Rightarrow> 'a list" where
  "select m xs = map snd (filter fst (zip m xs))"

text \<open>\<^verbatim>\<open>Series.unique()\<close>: the distinct values in the order of their first appearance
  (a missing key appears once).\<close>

definition unique :: "'a list \<Rightarrow> 'a list" where
  "unique xs = rev (remdups (rev xs))"

subsection \<open>Series operations\<close>

definition to_series :: "column \<Rightarrow> series" where
  "to_series xs = zip [0..<length xs] xs"

text \<open>\<^verbatim>\<open>.diff()\<close>: each value minus the one before it; the first has none before it and
  is NaN.\<close>

definition nan_sub :: "rat option \<Rightarrow> rat option \<Rightarrow> rat option" where
  "nan_sub a b = (case (a, b) of (Some x, Some y) \<Rightarrow> Some (x - y) | _ \<Rightarrow> None)"

fun diff_from :: "rat option \<Rightarrow> column \<Rightarrow> column" where
  "diff_from prev [] = []"
| "diff_from prev (x # xs) = nan_sub x prev # diff_from x xs"

fun diff :: "column \<Rightarrow> column" where
  "diff [] = []"
| "diff (x # xs) = None # diff_from x xs"

definition fillna :: "rat \<Rightarrow> column \<Rightarrow> column" where
  "fillna v xs = map (\<lambda>x. case x of None \<Rightarrow> Some v | Some y \<Rightarrow> Some y) xs"

text \<open>\<^verbatim>\<open>.rolling(window=w).mean()\<close>: \<^verbatim>\<open>min_periods\<close> defaults to the window length, so
  a position has a value only when its window holds \<open>w\<close> values, none of them NaN.\<close>

definition window_mean :: "column \<Rightarrow> rat option" where
  "window_mean ws = (case those ws of None \<Rightarrow> None
                     | Some vs \<Rightarrow> Some (sum_list vs / of_nat (length vs)))"

definition rolling_mean :: "nat \<Rightarrow> column \<Rightarrow> column" where
  "rolling_mean w xs =
     map (\<lambda>i. if i + 1 < w then None else window_mean (take w (drop (i + 1 - w) xs)))
       [0..<length xs]"

text \<open>\<^verbatim>\<open>.max()\<close> and \<^verbatim>\<open>.mean()\<close> of a Series skip NaN; with no value left the result is
  NaN. \<^verbatim>\<open>s[-7:]\<close> keeps the last seven entries, or all of them when there are fewer.\<close>

definition dropna :: "column \<Rightarrow> rat list" where
  "dropna xs = [v. Some v \<leftarrow> xs]"

definition nanmax :: "column \<Rightarrow> rat option" where
  "nanmax xs = (case dropna xs of [] \<Rightarrow> None | v # vs \<Rightarrow> Some (fold max vs v))"

definition nanmean :: "column \<Rightarrow> rat option" where
  "nanmean xs = (case dropna xs of [] \<Rightarrow> None
                 | v # vs \<Rightarrow> Some (sum_list (v # vs) / of_nat (length (v # vs))))"

definition last_n :: "nat \<Rightarrow> 'a list \<Rightarrow> 'a list" where
  "last_n n xs = drop (length xs - n) xs"

subsection \<open>Working region by region\<close>

text \<open>
  Both \<^verbatim>\<open>groupby('fips')[c].diff()\<close> and the first loop of \<^verbatim>\<open>add_sma_and_ratio\<close> cut a
  column into one Series per key, transform each Series on its own, and put the
  results back by index label: \<^verbatim>\<open>pd.concat\<close> joins the Series, and the assignment
  \<^verbatim>\<open>df[c] = s\<close> gives row \<open>i\<close> the value \<open>s\<close> holds under label \<open>i\<close>, NaN when it holds
  none. A row whose key is missing is in no Series (\<^verbatim>\<open>groupby\<close> drops it, and in
  the loop \<^verbatim>\<open>df['fips'] == nan\<close> selects nothing).
\<close>

definition on_values :: "(column \<Rightarrow> column) \<Rightarrow> series \<Rightarrow> series" where
  "on_values g s = zip (map fst s) (g (map snd s))"

definition assign_series :: "nat \<Rightarrow> series \<Rightarrow> column" where
  "assign_series n s = map (\<lambda>i. case map_of s i of None \<Rightarrow> None | Some v \<Rightarrow> v) [0..<n]"

definition county_series :: "(column \<Rightarrow> column) \<Rightarrow> string option list \<Rightarrow> column \<Rightarrow> series list" where
  "county_series g fs xs =
     map (\<lambda>k. on_values g (select (col_eq fs k) (to_series xs))) (unique fs)"

definition groupby_diff :: "string option list \<Rightarrow> column \<Rightarrow> column" where
  "groupby_diff fs xs = assign_series (length fs) (concat (county_series diff fs xs))"

text \<open>
  The explicit \<^verbatim>\<open>pd.concat(county_SMA)\<close> of \<^verbatim>\<open>add_sma_and_ratio\<close> raises ValueError when
  the list it is given is empty, which is the case exactly when the table has no
  row. \<open>sma_column\<close> is the column the first loop of \<^verbatim>\<open>add_sma_and_ratio\<close> assigns
  when the list is not empty.
\<close>

definition pd_concat :: "series list \<Rightarrow> exn + series" where
  "pd_concat ss =
     (if ss = [] then Inl (ValueError ''No objects to concatenate'') else Inr (concat ss))"

definition sma_column :: "string option list \<Rightarrow> column \<Rightarrow> column" where
  "sma_column fs xs = assign_series (length fs) (concat (county_series (rolling_mean 7) fs xs))"

section \<open>The cells of the notebook\<close>

subsection \<open>Incremental cases\<close>

text \<open>
  \<^verbatim>\<open>covid_df['daily_cases'] = covid_df.groupby('fips')['cases'].diff().fillna(0)\<close>
\<close>

definition daily_cases_cell :: "frame \<Rightarrow> exn + frame" where
  "daily_cases_cell covid_df =
     (case get_col covid_df ''cases'' of
        Inl e \<Rightarrow> Inl e
      | Inr cases \<Rightarrow>
          Inr (set_col covid_df ''daily_cases'' (fillna 0 (groupby_diff (fips covid_df) cases))))"

subsection \<open>Recalibration\<close>

text \<open>
  \<^verbatim>\<open>np.where(covid_df['date']<'2020-06-01', covid_df['cases_new']*4, covid_df['cases_new']*2.1)\<close>
  and the same with 5.5 and 7. The cell reads the column \<^verbatim>\<open>cases_new\<close>.
\<close>

definition col_mul :: "column \<Rightarrow> rat \<Rightarrow> column" where
  "col_mul xs k = map (map_option (\<lambda>v. v * k)) xs"

definition np_where :: "bool list \<Rightarrow> 'a list \<Rightarrow> 'a list \<Rightarrow> 'a list" where
  "np_where c xs ys = map (\<lambda>(b, x, y). if b then x else y) (zip c (zip xs ys))"

definition recalibrate :: "int option list \<Rightarrow> int \<Rightarrow> rat \<Rightarrow> rat \<Rightarrow> column \<Rightarrow> column" where
  "recalibrate ds t a b xs = np_where (date_lt ds t) (col_mul xs a) (col_mul xs b)"

definition recalibration_cell :: "frame \<Rightarrow> exn + frame" where
  "recalibration_cell covid_df =
     (case get_col covid_df ''cases_new'' of
        Inl e \<Rightarrow> Inl e
      | Inr cases_new \<Rightarrow>
          (let ds = date covid_df;
               df1 = set_col covid_df ''daily_cases_low''
                       (recalibrate ds d_2020_06_01 4 (21 / 10) cases_new);
               df2 = set_col df1 ''daily_cases_med''
                       (recalibrate ds d_2020_06_01 (11 / 2) (21 / 10) cases_new);
               df3 = set_col df2 ''daily_cases_high''
                       (recalibrate ds d_2020_06_01 7 (21 / 10) cases_new)
           in Inr df3))"

subsection \<open>Scalars and safe division\<close>

text \<open>
  The values that reach \<^verbatim>\<open>safe_div\<close> are scalars: a floating-point value is NaN, an
  infinity or a finite number (the sign of a zero is not modelled). A scalar is
  a Python number or a \<^verbatim>\<open>numpy.float64\<close>, and the two divide differently: Python
  raises ZeroDivisionError on a zero divisor, while a division with a numpy operand
  never raises and yields an infinity or NaN (with a warning). \<^verbatim>\<open>Series.max()\<close> and
  \<^verbatim>\<open>Series.mean()\<close> return a \<^verbatim>\<open>numpy.float64\<close> when a value is left after skipping
  NaN, and the constant \<^verbatim>\<open>np.nan\<close>, a Python float, otherwise.
\<close>

datatype fl = NaN | PInf | NInf | Fin rat

datatype scalar = PyInt int | PyFloat fl | NpFloat64 fl

fun value_of :: "scalar \<Rightarrow> fl" where
  "value_of (PyInt n) = Fin (of_int n)"
| "value_of (PyFloat x) = x"
| "value_of (NpFloat64 x) = x"

fun is_numpy :: "scalar \<Rightarrow> bool" where
  "is_numpy (NpFloat64 x) = True"
| "is_numpy s = False"

fun ieee_div :: "fl \<Rightarrow> fl \<Rightarrow> fl" where
  "ieee_div NaN y = NaN"
| "ieee_div x NaN = NaN"
| "ieee_div (Fin a) (Fin b) =
     (if b \<noteq> 0 then Fin (a / b) else if a = 0 then NaN else if 0 < a then PInf else NInf)"
| "ieee_div (Fin a) y = Fin 0"
| "ieee_div PInf (Fin b) = (if 0 \<le> b then PInf else NInf)"
| "ieee_div NInf (Fin b) = (if 0 \<le> b then NInf else PInf)"
| "ieee_div x y = NaN"

definition truediv :: "scalar \<Rightarrow> scalar \<Rightarrow> exn + scalar" where
  "truediv x y =
     (if is_numpy x \<or> is_numpy y then Inr (NpFloat64 (ieee_div (value_of x) (value_of y)))
      else if value_of y = Fin 0 then Inl ZeroDivisionError
      else Inr (PyFloat (ieee_div (value_of x) (value_of y))))"

text \<open>
  \<^verbatim>\<open>def safe_div(x, y):\<close>
  \<^verbatim>\<open>    try: return x/y\<close>
  \<^verbatim>\<open>    except ZeroDivisionError: return 0\<close>
\<close>

definition safe_div :: "scalar \<Rightarrow> scalar \<Rightarrow> exn + scalar" where
  "safe_div x y =
     (case truediv x y of
        Inr q \<Rightarrow> Inr q
      | Inl ZeroDivisionError \<Rightarrow> Inr (PyInt 0)
      | Inl e \<Rightarrow> Inl e)"

definition series_scalar :: "rat option \<Rightarrow> scalar" where
  "series_scalar r = (case r of None \<Rightarrow> PyFloat NaN | Some v \<Rightarrow> NpFloat64 (Fin v))"

subsection \<open>Moving average, peak, recent average and ratio\<close>

text \<open>
  \<^verbatim>\<open>add_sma_and_ratio(cvd_df, case_column)\<close>. The first loop replaces the column
  \<^verbatim>\<open>case_column\<close> of the table it is given by its moving average, region by region; the
  table is changed in place, so the model returns it with the ratios. The second
  loop runs over \<^verbatim>\<open>counties_df['FIPS'].unique()\<close>, a global of the notebook, which the
  model takes as the parameter \<open>counties_FIPS\<close>. For each region it selects the rows
  \<^verbatim>\<open>(fips == k) & (date < '2020-10-01')\<close> for the peak, and the rows
  \<^verbatim>\<open>(fips == k) & (date > '2020-10-01') & (date < '2021-02-06')\<close> for the recent average.
\<close>

definition prev_mask :: "string option list \<Rightarrow> int option list \<Rightarrow> string \<Rightarrow> bool list" where
  "prev_mask fs ds k = mask_and (col_eq fs (Some k)) (date_lt ds d_2020_10_01)"

definition curr_mask :: "string option list \<Rightarrow> int option list \<Rightarrow> string \<Rightarrow> bool list" where
  "curr_mask fs ds k =
     mask_and (mask_and (col_eq fs (Some k)) (date_gt ds d_2020_10_01)) (date_lt ds d_2021_02_06)"

definition county_prev_peak :: "string option list \<Rightarrow> int option list \<Rightarrow> column \<Rightarrow> string \<Rightarrow> rat option" where
  "county_prev_peak fs ds sma k = nanmax (select (prev_mask fs ds k) sma)"

definition county_curr_ave :: "string option list \<Rightarrow> int option list \<Rightarrow> column \<Rightarrow> string \<Rightarrow> rat option" where
  "county_curr_ave fs ds sma k = nanmean (last_n 7 (select (curr_mask fs ds k) sma))"

fun sequence :: "(exn + 'a) list \<Rightarrow> exn + 'a list" where
  "sequence [] = Inr []"
| "sequence (Inl e # rs) = Inl e"
| "sequence (Inr v # rs) = (case sequence rs of Inl e \<Rightarrow> Inl e | Inr vs \<Rightarrow> Inr (v # vs))"

text \<open>
  The first loop: one moving-average Series per value of \<^verbatim>\<open>cvd_df['fips'].unique()\<close>.
  The column \<^verbatim>\<open>case_column\<close> is read inside the loop, so a table with no row never
  reads it and leaves the list empty.
\<close>

definition county_SMA :: "frame \<Rightarrow> string \<Rightarrow> exn + series list" where
  "county_SMA cvd_df case_column =
     (if unique (fips cvd_df) = [] then Inr []
      else case get_col cvd_df case_column of
             Inl e \<Rightarrow> Inl e
           | Inr xs \<Rightarrow> Inr (county_series (rolling_mean 7) (fips cvd_df) xs))"

definition add_sma_and_ratio :: "string list \<Rightarrow> frame \<Rightarrow> string \<Rightarrow> exn + scalar list \<times> frame" where
  "add_sma_and_ratio counties_FIPS cvd_df case_column =
     (case county_SMA cvd_df case_column of
        Inl e \<Rightarrow> Inl e
      | Inr ss \<Rightarrow>
          (case pd_concat ss of
             Inl e \<Rightarrow> Inl e
           | Inr s \<Rightarrow>
               (let sma = assign_series (length (fips cvd_df)) s;
                    cvd_df' = set_col cvd_df case_column sma;
                    prev_peak = map (\<lambda>k. series_scalar
                                      (county_prev_peak (fips cvd_df') (date cvd_df') sma k))
                                  counties_FIPS;
                    curr_ave = map (\<lambda>k. series_scalar
                                     (county_curr_ave (fips cvd_df') (date cvd_df') sma k))
                                 counties_FIPS
                in case sequence (map2 safe_div curr_ave prev_peak) of
                     Inl e \<Rightarrow> Inl e
                   | Inr ratios \<Rightarrow> Inr (ratios, cvd_df'))))"

section \<open>The specification's words\<close>

text \<open>
  Two quantities as the specification words them, to be compared with what the
  notebook computes. The reference window of a region holds its defined smoothed
  values at dates before 2020-10-01; the comparison window holds its observations
  (date, smoothed value) at dates strictly between 2020-10-01 and 2021-02-06. The
  recent average sorts the comparison window by date, keeps the last seven
  observations (all of them when there are fewer), and takes the mean of the
  defined values among them.
\<close>

definition spec_reference_values :: "string option list \<Rightarrow> int option list \<Rightarrow> column \<Rightarrow> string \<Rightarrow> rat list" where
  "spec_reference_values fs ds sma k =
     [v. (Some g, Some d, Some v) \<leftarrow> zip fs (zip ds sma), g = k \<and> d < d_2020_10_01]"

definition spec_peak :: "string option list \<Rightarrow> int option list \<Rightarrow> column \<Rightarrow> string \<Rightarrow> rat option" where
  "spec_peak fs ds sma k =
     (let vs = spec_reference_values fs ds sma k
      in if vs = [] then None else Some (Max (set vs)))"

definition spec_comparison_window :: "string option list \<Rightarrow> int option list \<Rightarrow> column \<Rightarrow> string \<Rightarrow> (int \<times> rat option) list" where
  "spec_comparison_window fs ds sma k =
     [(d, v). (Some g, Some d, v) \<leftarrow> zip fs (zip ds sma),
              g = k \<and> d_2020_10_01 < d \<and> d < d_2021_02_06]"

definition mean_of_last_seven :: "(int \<times> rat option) list \<Rightarrow> rat option" where
  "mean_of_last_seven w =
     (let last7 = drop (length w - 7) w;
          vs = [v. (d, Some v) \<leftarrow> last7]
      in if vs = [] then None else Some (sum_list vs / of_nat (length vs)))"

definition spec_recent_average :: "string option list \<Rightarrow> int option list \<Rightarrow> column \<Rightarrow> string \<Rightarrow> rat option" where
  "spec_recent_average fs ds sma k =
     mean_of_last_seven (sort_key fst (spec_comparison_window fs ds sma k))"

section \<open>Rows of a region\<close>

text \<open>The positions of the rows of one region, in table order.\<close>

definition rows_of :: "string option list \<Rightarrow> string option \<Rightarrow> nat list" where
  "rows_of fs k = filter ((!) (col_eq fs k)) [0..<length fs]"

section \<open>Example tables\<close>

text \<open>Small tables on which the theorems below are instantiated.\<close>

definition example_cases :: frame where
  "example_cases =
     \<lparr>fips = [Some ''01001'', Some ''01003'', Some ''01001'', None, Some ''01001''],
      date = [Some 18341, Some 18341, Some 18342, Some 18342, None],
      cols = [(''cases'', [Some 1, Some 5, Some 3, Some 9, Some 6])]\<rparr>"

definition example_smoothing :: frame where
  "example_smoothing =
     \<lparr>fips = [Some ''53033'', Some ''53033'', Some ''53033'', Some ''53033'', Some ''53033'',
              Some ''53033'', Some ''53033'', Some ''53033'', Some ''53033''],
      date = [Some 18529, Some 18530, Some 18531, Some 18532, Some 18533,
              Some 18534, Some 18535, Some 18536, Some 18537],
      cols = [(''daily_cases'', [Some 7, Some 7, Some 7, Some 7, Some 7,
                                  Some 7, Some 7, Some 14, Some 21])]\<rparr>"

definition example_no_recent :: frame where
  "example_no_recent =
     \<lparr>fips = [Some ''53033'', Some ''53033'', Some ''53033'', Some ''53033'', Some ''53033'',
              Some ''53033'', Some ''53033''],
      date = [Some 18529, Some 18530, Some 18531, Some 18532, Some 18533,
              Some 18534, Some 18535],
      cols = [(''daily_cases'', [Some 7, Some 7, Some 7, Some 7, Some 7, Some 7, Some 7])]\<rparr>"

text \<open>Two regions whose rows are interleaved, with a second numeric column.\<close>

definition example_two_regions :: frame where
  "example_two_regions =
     \<lparr>fips = [Some ''53033'', Some ''53061'', Some ''53033'', Some ''53033'', Some ''53061'',
              Some ''53033'', Some ''53033'', Some ''53033'', Some ''53033'', Some ''53033''],
      date = [Some 18530, Some 18530, Some 18531, Some 18532, Some 18531,
              Some 18533, Some 18534, Some 18535, Some 18536, Some 18537],
      cols = [(''cases'', [Some 1, Some 100, Some 3, Some 6, Some 300,
                            Some 10, Some 15, Some 21, Some 28, Some 36]),
              (''daily_cases'', [Some 1, Some 100, Some 2, Some 3, Some 200,
                                  Some 4, Some 5, Some 6, Some 7, Some 8])]\<rparr>"

text \<open>The table of \<open>example_smoothing\<close> with the value of the row dated 2020-10-01 set
  to 0.\<close>

definition example_boundary_zero :: frame where
  "example_boundary_zero =
     \<lparr>fips = [Some ''53033'', Some ''53033'', Some ''53033'', Some ''53033'', Some ''53033'',
              Some ''53033'', Some ''53033'', Some ''53033'', Some ''53033''],
      date = [Some 18529, Some 18530, Some 18531, Some 18532, Some 18533,
              Some 18534, Some 18535, Some 18536, Some 18537],
      cols = [(''daily_cases'', [Some 7, Some 7, Some 7, Some 7, Some 7,
                                  Some 7, Some 7, Some 0, Some 21])]\<rparr>"

section \<open>Selecting, and working region by region\<close>

lemma zip_as_map_upt:
  "length xs = length m \<Longrightarrow> zip m xs = map (\<lambda>i. (m ! i, xs ! i)) [0..<length m]"
  by (rule nth_equalityI) simp_all

lemma select_positions:
  assumes "length xs = length m"
  shows "select m xs = map ((!) xs) (filter ((!) m) [0..<length m])"
proof -
  have "select m xs = map snd (filter fst (map (\<lambda>i. (m ! i, xs ! i)) [0..<length m]))"
    using zip_as_map_upt [OF assms] by (simp add: select_def)
  also have "\<dots> = map ((!) xs) (filter ((!) m) [0..<length m])"
    by (simp add: filter_map o_def)
  finally show ?thesis .
qed

lemma distinct_rows_of: "distinct (rows_of fs k)"
  by (simp add: rows_of_def)

lemma set_rows_of: "set (rows_of fs k) = {i. i < length fs \<and> fs ! i \<noteq> None \<and> fs ! i = k}"
  by (auto simp: rows_of_def col_eq_def)

lemma select_col_eq:
  "length xs = length fs \<Longrightarrow> select (col_eq fs k) xs = map ((!) xs) (rows_of fs k)"
  using select_positions [of xs "col_eq fs k"] by (simp add: rows_of_def col_eq_def)

lemma select_to_series:
  assumes "length xs = length fs"
  shows "select (col_eq fs k) (to_series xs) = map (\<lambda>i. (i, xs ! i)) (rows_of fs k)"
proof -
  have "select (col_eq fs k) (to_series xs) = map ((!) (to_series xs)) (rows_of fs k)"
    using assms by (intro select_col_eq) (simp add: to_series_def)
  also have "\<dots> = map (\<lambda>i. (i, xs ! i)) (rows_of fs k)"
    using assms by (intro map_cong) (auto simp: set_rows_of to_series_def)
  finally show ?thesis .
qed

lemma county_series_member:
  assumes "length xs = length fs"
  shows "on_values g (select (col_eq fs k) (to_series xs))
         = zip (rows_of fs k) (g (select (col_eq fs k) xs))"
  using assms by (simp add: on_values_def select_to_series select_col_eq o_def)

lemma map_of_concat_only:
  assumes "s \<in> set ss" and "i \<in> fst ` set s"
    and "\<And>t. t \<in> set ss \<Longrightarrow> i \<in> fst ` set t \<Longrightarrow> t = s"
  shows "map_of (concat ss) i = map_of s i"
  using assms
proof (induction ss)
  case Nil
  then show ?case by simp
next
  case (Cons t ts)
  show ?case
  proof (cases "i \<in> fst ` set t")
    case True
    have "t = s" by (rule Cons.prems(3)) (simp_all add: True)
    moreover have "map_of s i \<noteq> None"
      using Cons.prems(2) by (simp add: map_of_eq_None_iff)
    ultimately show ?thesis by (auto simp: map_add_def)
  next
    case False
    then have none: "map_of t i = None" by (simp add: map_of_eq_None_iff)
    have "t \<noteq> s" using False Cons.prems(2) by blast
    then have "s \<in> set ts" using Cons.prems(1) by simp
    then have "map_of (concat ts) i = map_of s i"
      by (rule Cons.IH) (simp_all add: Cons.prems)
    then show ?thesis by (simp add: map_add_def none)
  qed
qed

lemma map_of_concat_none:
  assumes "\<And>t. t \<in> set ss \<Longrightarrow> i \<notin> fst ` set t"
  shows "map_of (concat ss) i = None"
proof -
  have "i \<notin> fst ` set (concat ss)"
    using assms by (induction ss) (simp_all add: image_Un)
  then show ?thesis by (simp add: map_of_eq_None_iff)
qed

lemma lookup_zip_all:
  assumes "distinct is" and "length ys = length is"
  shows "map (\<lambda>i. case map_of (zip is ys) i of None \<Rightarrow> None | Some v \<Rightarrow> v) is = ys"
proof (rule nth_equalityI)
  show "length (map (\<lambda>i. case map_of (zip is ys) i of None \<Rightarrow> None | Some v \<Rightarrow> v) is) = length ys"
    using assms by simp
next
  fix j assume "j < length (map (\<lambda>i. case map_of (zip is ys) i of None \<Rightarrow> None | Some v \<Rightarrow> v) is)"
  then have j: "j < length ys" using assms by simp
  have "map_of (zip is ys) (is ! j) = Some (ys ! j)"
    using assms j by (intro map_of_zip_nth) simp_all
  then show "map (\<lambda>i. case map_of (zip is ys) i of None \<Rightarrow> None | Some v \<Rightarrow> v) is ! j = ys ! j"
    using j assms by simp
qed

lemma set_unique: "set (unique xs) = set xs"
  by (simp add: unique_def)

lemma keys_county_series:
  assumes "length xs = length fs" and "\<And>ys. length (g ys) = length ys"
  shows "fst ` set (on_values g (select (col_eq fs k) (to_series xs))) = set (rows_of fs k)"
proof -
  have "length (g (select (col_eq fs k) xs)) = length (rows_of fs k)"
    using assms by (simp add: select_col_eq)
  then show ?thesis
    using assms(1) by (simp add: county_series_member flip: set_map)
qed

lemma lookup_county_series:
  assumes len: "length xs = length fs" and g: "\<And>ys. length (g ys) = length ys"
    and i: "i < length fs" and f: "fs ! i = Some f"
  shows "map_of (concat (county_series g fs xs)) i
         = map_of (zip (rows_of fs (Some f)) (g (select (col_eq fs (Some f)) xs))) i"
proof -
  let ?s = "\<lambda>k. on_values g (select (col_eq fs k) (to_series xs))"
  have "Some f \<in> set fs" using i f by (metis nth_mem)
  then have 1: "?s (Some f) \<in> set (county_series g fs xs)"
    by (simp add: county_series_def set_unique)
  have 2: "i \<in> fst ` set (?s (Some f))"
    using i f by (simp add: keys_county_series [OF len g] set_rows_of)
  have 3: "t = ?s (Some f)"
    if t: "t \<in> set (county_series g fs xs)" and it: "i \<in> fst ` set t" for t
  proof -
    obtain k where k: "t = ?s k" using t by (auto simp: county_series_def)
    have "i \<in> set (rows_of fs k)"
      using it unfolding k keys_county_series [OF len g] .
    then have "k = Some f" using f by (simp add: set_rows_of)
    then show ?thesis using k by simp
  qed
  have "map_of (concat (county_series g fs xs)) i = map_of (?s (Some f)) i"
    using 1 2 3 by (rule map_of_concat_only)
  then show ?thesis by (simp add: county_series_member [OF len])
qed

lemma select_assign_series:
  "select (col_eq fs k) (assign_series (length fs) s)
   = map (\<lambda>i. case map_of s i of None \<Rightarrow> None | Some v \<Rightarrow> v) (rows_of fs k)"
proof -
  have "select (col_eq fs k) (assign_series (length fs) s)
        = map ((!) (assign_series (length fs) s)) (rows_of fs k)"
    by (intro select_col_eq) (simp add: assign_series_def)
  also have "\<dots> = map (\<lambda>i. case map_of s i of None \<Rightarrow> None | Some v \<Rightarrow> v) (rows_of fs k)"
    by (intro map_cong) (auto simp: set_rows_of assign_series_def)
  finally show ?thesis .
qed

lemma per_region:
  assumes len: "length xs = length fs" and g: "\<And>ys. length (g ys) = length ys"
  shows "select (col_eq fs (Some f)) (assign_series (length fs) (concat (county_series g fs xs)))
         = g (select (col_eq fs (Some f)) xs)"
proof -
  let ?S = "concat (county_series g fs xs)"
  let ?I = "rows_of fs (Some f)"
  let ?ys = "g (select (col_eq fs (Some f)) xs)"
  have "map (\<lambda>i. case map_of ?S i of None \<Rightarrow> None | Some v \<Rightarrow> v) ?I
        = map (\<lambda>i. case map_of (zip ?I ?ys) i of None \<Rightarrow> None | Some v \<Rightarrow> v) ?I"
    using lookup_county_series [OF len g] by (intro map_cong) (auto simp: set_rows_of)
  also have "\<dots> = ?ys"
    using len g by (intro lookup_zip_all distinct_rows_of) (simp add: select_col_eq)
  finally show ?thesis by (simp add: select_assign_series)
qed

lemma no_region_row:
  assumes len: "length xs = length fs" and g: "\<And>ys. length (g ys) = length ys"
    and i: "i < length fs" and f: "fs ! i = None"
  shows "assign_series (length fs) (concat (county_series g fs xs)) ! i = None"
proof -
  have "map_of (concat (county_series g fs xs)) i = None"
  proof (rule map_of_concat_none)
    fix t assume "t \<in> set (county_series g fs xs)"
    then obtain k where "t = on_values g (select (col_eq fs k) (to_series xs))"
      by (auto simp: county_series_def)
    then show "i \<notin> fst ` set t"
      using f by (simp add: keys_county_series [OF len g] set_rows_of)
  qed
  then show ?thesis using i by (simp add: assign_series_def)
qed

lemma length_diff_from: "length (diff_from p xs) = length xs"
  by (induction xs arbitrary: p) simp_all

lemma length_diff: "length (diff xs) = length xs"
  by (cases xs) (simp_all add: length_diff_from)

lemma length_rolling_mean: "length (rolling_mean w xs) = length xs"
  by (simp add: rolling_mean_def)

lemma length_assign_series: "length (assign_series n s) = n"
  by (simp add: assign_series_def)

lemma select_map: "select m (map h xs) = map h (select m xs)"
proof -
  have "zip m (map h xs) = map (\<lambda>(b, x). (b, h x)) (zip m xs)"
    by (simp add: zip_map2)
  then show ?thesis
    by (simp add: select_def filter_map o_def case_prod_unfold)
qed

lemma select_fillna: "select m (fillna v xs) = fillna v (select m xs)"
  by (simp add: fillna_def select_map)

lemma get_set_col_same: "get_col (set_col df c xs) c = Inr xs"
  by (simp add: get_col_def set_col_def update_conv')

lemma get_set_col_other: "c' \<noteq> c \<Longrightarrow> get_col (set_col df c xs) c' = get_col df c'"
  by (simp add: get_col_def set_col_def update_conv')

lemma fips_set_col: "fips (set_col df c xs) = fips df"
  by (simp add: set_col_def)

lemma date_set_col: "date (set_col df c xs) = date df"
  by (simp add: set_col_def)

lemma groupby_diff_region:
  "length xs = length fs \<Longrightarrow>
   select (col_eq fs (Some k)) (groupby_diff fs xs) = diff (select (col_eq fs (Some k)) xs)"
  unfolding groupby_diff_def by (rule per_region) (simp_all add: length_diff)

lemma sma_column_region:
  "length xs = length fs \<Longrightarrow>
   select (col_eq fs (Some k)) (sma_column fs xs)
   = rolling_mean 7 (select (col_eq fs (Some k)) xs)"
  unfolding sma_column_def by (rule per_region) (simp_all add: length_rolling_mean)

lemma daily_cases_cell_result:
  "get_col covid_df ''cases'' = Inr cases \<Longrightarrow>
   daily_cases_cell covid_df
   = Inr (set_col covid_df ''daily_cases'' (fillna 0 (groupby_diff (fips covid_df) cases)))"
  by (simp add: daily_cases_cell_def)

lemma diff_from_nth:
  "Suc j < length r \<Longrightarrow> r ! j = Some a \<Longrightarrow> r ! Suc j = Some b \<Longrightarrow>
   diff_from p r ! Suc j = Some (b - a)"
proof (induction r arbitrary: p j)
  case Nil
  then show ?case by simp
next
  case (Cons x r)
  show ?case
  proof (cases j)
    case 0
    then show ?thesis using Cons.prems by (cases r) (simp_all add: nan_sub_def)
  next
    case (Suc j')
    then show ?thesis using Cons.prems Cons.IH [of j' x] by simp
  qed
qed

lemma diff_nth:
  assumes "Suc j < length r" and "r ! j = Some a" and "r ! Suc j = Some b"
  shows "diff r ! Suc j = Some (b - a)"
proof (cases r)
  case Nil
  then show ?thesis using assms by simp
next
  case (Cons x r')
  show ?thesis
  proof (cases j)
    case 0
    then show ?thesis using assms Cons by (cases r') (simp_all add: nan_sub_def)
  next
    case (Suc j')
    then show ?thesis using assms Cons diff_from_nth [of j' r' a b x] by simp
  qed
qed

lemmas eval_defs =
  get_col_def set_col_def col_eq_def select_def unique_def to_series_def nan_sub_def fillna_def
  on_values_def assign_series_def county_series_def groupby_diff_def daily_cases_cell_def

lemmas eval_sma =
  eval_defs sma_column_def rolling_mean_def window_mean_def dropna_def nanmax_def nanmean_def
  last_n_def mask_and_def date_lt_def date_gt_def prev_mask_def curr_mask_def
  county_prev_peak_def county_curr_ave_def series_scalar_def safe_div_def truediv_def
  pd_concat_def county_SMA_def add_sma_and_ratio_def d_2020_10_01_def d_2021_02_06_def

lemma those_map_Some: "those (map Some xs) = Some xs"
  by (induction xs) simp_all

lemma diff_from_increasing:
  "sorted_wrt (<) (p # cs) \<Longrightarrow>
   \<exists>ds. diff_from (Some p) (map Some cs) = map Some ds \<and> (\<forall>x\<in>set ds. 0 \<le> x) \<and>
        sum_list ds = last (p # cs) - p"
proof (induction cs arbitrary: p)
  case Nil
  then show ?case by simp
next
  case (Cons c cs)
  then have "sorted_wrt (<) (c # cs)" and pc: "p < c" by simp_all
  then obtain ds where ds: "diff_from (Some c) (map Some cs) = map Some ds"
      "\<forall>x\<in>set ds. 0 \<le> x" "sum_list ds = last (c # cs) - c"
    using Cons.IH by blast
  have "diff_from (Some p) (map Some (c # cs)) = map Some ((c - p) # ds)"
    by (simp add: ds(1) nan_sub_def)
  moreover have "\<forall>x\<in>set ((c - p) # ds). 0 \<le> x" using ds(2) pc by simp
  moreover have "sum_list ((c - p) # ds) = last (p # c # cs) - p" using ds(3) by simp
  ultimately show ?case by blast
qed

section \<open>Incremental series\<close>

text \<open>
  Claim C8. For every region, the column \<^verbatim>\<open>daily_cases\<close> restricted to the rows of the
  region is the first difference of the region's own cumulative counts, taken over
  consecutive rows of that region (so never across a region boundary: it is a
  function of the region's rows alone), with every undefined difference filled with 0.
  Its first value is 0 whatever the first cumulative count is, and at every later
  row where the count and the count before it are numbers the value is their
  difference.
\<close>

theorem daily_cases_first_difference:
  assumes "get_col covid_df ''cases'' = Inr cases"
    and "length cases = length (fips covid_df)"
  shows "\<exists>df' daily.
           daily_cases_cell covid_df = Inr df' \<and> get_col df' ''daily_cases'' = Inr daily \<and>
           (let r = select (col_eq (fips covid_df) (Some k)) cases;
                d = select (col_eq (fips covid_df) (Some k)) daily
            in d = fillna 0 (diff r) \<and> length d = length r \<and>
               (r \<noteq> [] \<longrightarrow> d ! 0 = Some 0) \<and>
               (\<forall>j a b. Suc j < length r \<and> r ! j = Some a \<and> r ! Suc j = Some b
                          \<longrightarrow> d ! Suc j = Some (b - a)))"
proof -
  let ?fs = "fips covid_df"
  let ?daily = "fillna 0 (groupby_diff ?fs cases)"
  let ?r = "select (col_eq ?fs (Some k)) cases"
  let ?d = "select (col_eq ?fs (Some k)) ?daily"
  have d: "?d = fillna 0 (diff ?r)"
    using assms(2) by (simp add: select_fillna groupby_diff_region)
  have len: "length ?d = length ?r"
    unfolding d by (simp add: fillna_def length_diff)
  have first: "?d ! 0 = Some 0" if "?r \<noteq> []"
    using that unfolding d by (cases ?r) (simp_all add: fillna_def)
  have step: "?d ! Suc j = Some (b - a)"
    if "Suc j < length ?r" "?r ! j = Some a" "?r ! Suc j = Some b" for j a b
    using that diff_nth [OF that] unfolding d by (simp add: fillna_def length_diff)
  show ?thesis
    using daily_cases_cell_result [OF assms(1)] d len first step
    by (simp add: get_set_col_same Let_def)
qed

theorem daily_cases_first_difference_witness:
  "get_col example_cases ''cases'' = Inr [Some 1, Some 5, Some 3, Some 9, Some 6] \<and>
   (\<exists>df' daily.
      daily_cases_cell example_cases = Inr df' \<and> get_col df' ''daily_cases'' = Inr daily \<and>
      select (col_eq (fips example_cases) (Some ''01001'')) daily = [Some 0, Some 2, Some 3])"
  using daily_cases_first_difference
    [of example_cases "[Some 1, Some 5, Some 3, Some 9, Some 6]" "''01001''"]
  by (simp add: example_cases_def eval_defs)

text \<open>
  Claim C9. For a region whose cumulative counts are numbers and strictly increasing,
  every value of \<^verbatim>\<open>daily_cases\<close> of the region is non-negative and the values sum to
  the last cumulative count minus the first.
\<close>

theorem strictly_increasing_increments:
  assumes "get_col covid_df ''cases'' = Inr cases"
    and "length cases = length (fips covid_df)"
    and "select (col_eq (fips covid_df) (Some k)) cases = map Some cs"
    and "sorted_wrt (<) cs" and "cs \<noteq> []"
  shows "\<exists>df' daily ds.
           daily_cases_cell covid_df = Inr df' \<and> get_col df' ''daily_cases'' = Inr daily \<and>
           select (col_eq (fips covid_df) (Some k)) daily = map Some ds \<and>
           (\<forall>x\<in>set ds. 0 \<le> x) \<and> sum_list ds = last cs - hd cs"
proof -
  let ?fs = "fips covid_df"
  let ?daily = "fillna 0 (groupby_diff ?fs cases)"
  obtain c cs' where cs: "cs = c # cs'" using assms(5) by (cases cs) auto
  obtain ds where ds: "diff_from (Some c) (map Some cs') = map Some ds"
      "\<forall>x\<in>set ds. 0 \<le> x" "sum_list ds = last (c # cs') - c"
    using diff_from_increasing [of c cs'] assms(4) cs by blast
  have "select (col_eq ?fs (Some k)) ?daily = fillna 0 (diff (map Some cs))"
    using assms(2,3) by (simp add: select_fillna groupby_diff_region)
  also have "\<dots> = map Some (0 # ds)"
    by (simp add: cs ds(1) fillna_def)
  finally have 1: "select (col_eq ?fs (Some k)) ?daily = map Some (0 # ds)" .
  have 2: "\<forall>x\<in>set (0 # ds). 0 \<le> x" using ds(2) by simp
  have 3: "sum_list (0 # ds) = last cs - hd cs" using ds(3) cs by simp
  show ?thesis
    using daily_cases_cell_result [OF assms(1)] 1 2 3 get_set_col_same by blast
qed

theorem strictly_increasing_increments_witness:
  "select (col_eq (fips example_cases) (Some ''01001'')) [Some 1, Some 5, Some 3, Some 9, Some 6]
     = map Some [1, 3, 6] \<and>
   sorted_wrt (<) [1, 3, 6 :: rat] \<and>
   (\<exists>df' daily ds.
      daily_cases_cell example_cases = Inr df' \<and> get_col df' ''daily_cases'' = Inr daily \<and>
      select (col_eq (fips example_cases) (Some ''01001'')) daily = map Some ds \<and>
      sum_list ds = 5)"
proof -
  have 1: "get_col example_cases ''cases'' = Inr [Some 1, Some 5, Some 3, Some 9, Some 6]"
    by (simp add: example_cases_def get_col_def)
  have 2: "length [Some 1, Some 5, Some 3, Some 9, Some (6::rat)] = length (fips example_cases)"
    by (simp add: example_cases_def)
  have 3: "select (col_eq (fips example_cases) (Some ''01001'')) [Some 1, Some 5, Some 3, Some 9, Some 6]
           = map Some [1, 3, 6]"
    by (simp add: example_cases_def col_eq_def select_def)
  have 4: "sorted_wrt (<) [1, 3, 6 :: rat]" by simp
  have 5: "[1, 3, 6 :: rat] \<noteq> []" by simp
  show ?thesis
    using strictly_increasing_increments [OF 1 2 3 4 5] 3 4 by auto
qed

section \<open>Rows without region key or date\<close>

text \<open>
  The notebook has no check of the rows it reads. On a table with a row that has no
  region key and a row that has no date, the cell that derives \<^verbatim>\<open>daily_cases\<close> raises
  nothing and returns the whole table, both rows included.
\<close>

theorem ingestion_missing_key_counterexample:
  "daily_cases_cell example_cases =
     Inr \<lparr>fips = [Some ''01001'', Some ''01003'', Some ''01001'', None, Some ''01001''],
          date = [Some 18341, Some 18341, Some 18342, Some 18342, None],
          cols = [(''cases'', [Some 1, Some 5, Some 3, Some 9, Some 6]),
                  (''daily_cases'', [Some 0, Some 0, Some 2, Some 0, Some 3])]\<rparr>"
  by (simp add: example_cases_def eval_defs)

text \<open>
  Claim C4, as amended. The cell that derives \<^verbatim>\<open>daily_cases\<close> never fails on a missing
  region key or date: on every table with a \<^verbatim>\<open>cases\<close> column it returns the same table
  with the column \<^verbatim>\<open>daily_cases\<close> added, one value per input row; a row whose region key
  is missing is kept with the value 0; and the dates are not read, so a missing date
  changes nothing.
\<close>

theorem ingestion_keeps_every_row:
  assumes "get_col covid_df ''cases'' = Inr cases"
    and "length cases = length (fips covid_df)"
  shows "\<exists>daily.
           daily_cases_cell covid_df = Inr (set_col covid_df ''daily_cases'' daily) \<and>
           length daily = length (fips covid_df) \<and>
           (\<forall>i < length (fips covid_df). fips covid_df ! i = None \<longrightarrow> daily ! i = Some 0) \<and>
           (\<forall>ds. daily_cases_cell (covid_df\<lparr>date := ds\<rparr>)
                  = Inr (set_col (covid_df\<lparr>date := ds\<rparr>) ''daily_cases'' daily))"
proof -
  let ?fs = "fips covid_df"
  let ?daily = "fillna 0 (groupby_diff ?fs cases)"
  have 1: "length ?daily = length ?fs"
    by (simp add: fillna_def groupby_diff_def length_assign_series)
  have 2: "?daily ! i = Some 0" if "i < length ?fs" "?fs ! i = None" for i
  proof -
    have "groupby_diff ?fs cases ! i = None"
      unfolding groupby_diff_def using assms(2) that
      by (intro no_region_row) (simp_all add: length_diff)
    moreover have "i < length (groupby_diff ?fs cases)"
      using that by (simp add: groupby_diff_def length_assign_series)
    ultimately show ?thesis by (simp add: fillna_def)
  qed
  have 3: "daily_cases_cell (covid_df\<lparr>date := ds\<rparr>)
           = Inr (set_col (covid_df\<lparr>date := ds\<rparr>) ''daily_cases'' ?daily)" for ds
    using assms(1) by (simp add: daily_cases_cell_def get_col_def)
  show ?thesis
    using daily_cases_cell_result [OF assms(1)] 1 2 3 by blast
qed

theorem ingestion_keeps_every_row_witness:
  "get_col example_cases ''cases'' = Inr [Some 1, Some 5, Some 3, Some 9, Some 6] \<and>
   fips example_cases ! 3 = None \<and>
   (\<exists>daily. daily_cases_cell example_cases = Inr (set_col example_cases ''daily_cases'' daily) \<and>
      length daily = 5 \<and> daily ! 3 = Some 0)"
proof -
  have 1: "get_col example_cases ''cases'' = Inr [Some 1, Some 5, Some 3, Some 9, Some 6]"
    by (simp add: example_cases_def get_col_def)
  have 2: "length [Some 1, Some 5, Some 3, Some 9, Some (6::rat)] = length (fips example_cases)"
    by (simp add: example_cases_def)
  have 3: "fips example_cases ! 3 = None" "length (fips example_cases) = 5"
    by (simp_all add: example_cases_def)
  show ?thesis
    using ingestion_keeps_every_row [OF 1 2] 1 3 by auto
qed

section \<open>Moving average\<close>

lemma rolling_mean_nth:
  assumes "i < length r"
  shows "rolling_mean w (map Some r) ! i =
         (if i + 1 < w then None
          else Some (sum_list (take w (drop (i + 1 - w) r))
                     / of_nat (length (take w (drop (i + 1 - w) r)))))"
proof -
  have "take w (drop (i + 1 - w) (map Some r)) = map Some (take w (drop (i + 1 - w) r))"
    by (simp add: take_map drop_map)
  then show ?thesis
    using assms by (simp add: rolling_mean_def window_mean_def those_map_Some)
qed

lemma rolling_mean_7_nth:
  assumes "i < length r"
  shows "rolling_mean 7 (map Some r) ! i =
         (if 6 \<le> i then Some (sum_list (take 7 (drop (i - 6) r)) / 7) else None)"
proof (cases "6 \<le> i")
  case True
  then have "length (take 7 (drop (i - 6) r)) = 7" using assms by simp
  moreover have "i + 1 - 7 = i - 6" by simp
  ultimately show ?thesis
    using True rolling_mean_nth [OF assms, of 7] by simp
next
  case False
  then show ?thesis using rolling_mean_nth [OF assms, of 7] by simp
qed

lemma safe_div_Inr: "\<exists>q. safe_div x y = Inr q"
  by (simp add: safe_div_def truediv_def)

lemma sequence_Inr:
  "\<forall>r\<in>set rs. \<exists>q. r = Inr q \<Longrightarrow> sequence rs = Inr (map projr rs)"
  by (induction rs rule: sequence.induct) auto

lemma unique_Nil: "unique xs = [] \<longleftrightarrow> xs = []"
  by (simp add: unique_def)

lemma add_sma_and_ratio_no_rows:
  "fips cvd_df = [] \<Longrightarrow>
   add_sma_and_ratio counties_FIPS cvd_df case_column
   = Inl (ValueError ''No objects to concatenate'')"
  by (simp add: add_sma_and_ratio_def county_SMA_def pd_concat_def unique_def)

lemma first_loop_result:
  assumes "get_col cvd_df case_column = Inr xs" and "fips cvd_df \<noteq> []"
  shows "\<exists>ss. county_SMA cvd_df case_column = Inr ss \<and>
              (\<exists>s. pd_concat ss = Inr s \<and>
                   assign_series (length (fips cvd_df)) s = sma_column (fips cvd_df) xs)"
proof -
  let ?ss = "county_series (rolling_mean 7) (fips cvd_df) xs"
  have 1: "county_SMA cvd_df case_column = Inr ?ss"
    using assms by (simp add: county_SMA_def unique_Nil)
  have "?ss \<noteq> []"
    using assms(2) by (simp add: county_series_def unique_Nil)
  then have 2: "pd_concat ?ss = Inr (concat ?ss)" by (simp add: pd_concat_def)
  have 3: "assign_series (length (fips cvd_df)) (concat ?ss) = sma_column (fips cvd_df) xs"
    by (simp add: sma_column_def)
  show ?thesis using 1 2 3 by blast
qed

lemma add_sma_and_ratio_result:
  assumes "get_col cvd_df case_column = Inr xs" and "fips cvd_df \<noteq> []"
  shows "\<exists>ratios.
           add_sma_and_ratio counties_FIPS cvd_df case_column
             = Inr (ratios, set_col cvd_df case_column (sma_column (fips cvd_df) xs)) \<and>
           length ratios = length counties_FIPS \<and>
           (\<forall>i < length counties_FIPS.
              safe_div
                (series_scalar (county_curr_ave (fips cvd_df) (date cvd_df)
                                  (sma_column (fips cvd_df) xs) (counties_FIPS ! i)))
                (series_scalar (county_prev_peak (fips cvd_df) (date cvd_df)
                                  (sma_column (fips cvd_df) xs) (counties_FIPS ! i)))
              = Inr (ratios ! i))"
proof -
  let ?sma = "sma_column (fips cvd_df) xs"
  let ?peak = "map (\<lambda>k. series_scalar (county_prev_peak (fips cvd_df) (date cvd_df) ?sma k))
                 counties_FIPS"
  let ?ave = "map (\<lambda>k. series_scalar (county_curr_ave (fips cvd_df) (date cvd_df) ?sma k))
                counties_FIPS"
  let ?rs = "map2 safe_div ?ave ?peak"
  obtain ss s where loop: "county_SMA cvd_df case_column = Inr ss" "pd_concat ss = Inr s"
      "assign_series (length (fips cvd_df)) s = ?sma"
    using first_loop_result [OF assms] by blast
  have "\<forall>r\<in>set ?rs. \<exists>q. r = Inr q"
    using safe_div_Inr by (auto simp: in_set_zip)
  then have seq: "sequence ?rs = Inr (map projr ?rs)" by (rule sequence_Inr)
  have 1: "add_sma_and_ratio counties_FIPS cvd_df case_column
           = Inr (map projr ?rs, set_col cvd_df case_column ?sma)"
    using loop seq by (simp add: add_sma_and_ratio_def fips_set_col date_set_col Let_def)
  have 2: "length (map projr ?rs) = length counties_FIPS" by simp
  have 3: "safe_div (?ave ! i) (?peak ! i) = Inr (map projr ?rs ! i)"
    if "i < length counties_FIPS" for i
  proof -
    obtain q where q: "safe_div (?ave ! i) (?peak ! i) = Inr q" using safe_div_Inr by blast
    have "?rs ! i = safe_div (?ave ! i) (?peak ! i)" using that by simp
    then show ?thesis using that q by simp
  qed
  have 4: "\<forall>i < length counties_FIPS.
      safe_div (series_scalar (county_curr_ave (fips cvd_df) (date cvd_df) ?sma (counties_FIPS ! i)))
               (series_scalar (county_prev_peak (fips cvd_df) (date cvd_df) ?sma (counties_FIPS ! i)))
      = Inr (map projr ?rs ! i)"
    using 3 by simp
  show ?thesis using 1 2 4 by blast
qed

lemma rows_of_filter:
  "rows_of fs (Some k) = filter (\<lambda>i. fs ! i = Some k) [0..<length fs]"
  unfolding rows_of_def by (rule filter_cong) (auto simp: col_eq_def)

lemma fillna_defined: "\<exists>ys. fillna v xs = map Some ys"
proof (induction xs)
  case Nil
  then show ?case by (simp add: fillna_def)
next
  case (Cons x xs)
  then obtain ys where "fillna v xs = map Some ys" by blast
  then have "fillna v (x # xs) = map Some ((case x of None \<Rightarrow> v | Some y \<Rightarrow> y) # ys)"
    by (simp add: fillna_def split: option.splits)
  then show ?case by blast
qed

lemma daily_cases_defined:
  assumes "daily_cases_cell covid_df = Inr df'"
  shows "\<exists>ys. get_col df' ''daily_cases'' = Inr (map Some ys)"
proof -
  obtain cases where c: "get_col covid_df ''cases'' = Inr cases"
    using assms by (cases "get_col covid_df ''cases''") (simp_all add: daily_cases_cell_def)
  obtain ys where "fillna 0 (groupby_diff (fips covid_df) cases) = map Some ys"
    using fillna_defined by blast
  then show ?thesis
    using assms daily_cases_cell_result [OF c] get_set_col_same by auto
qed

text \<open>
  Claim C5. Let the table have at least one row and let the column that
  \<^verbatim>\<open>add_sma_and_ratio\<close> smooths hold a number in every row, as the incremental series
  \<^verbatim>\<open>daily_cases\<close> does. The smoothed column is as long as the input. For every region,
  take the rows of the table whose key is the region's, in table order: the smoothed
  value at the \<open>i\<close>-th of these rows is the mean of the seven input values at the
  rows \<open>i - 6, ..., i\<close> of the same region when \<open>i\<close> is at least 6, and undefined
  otherwise. The seven values are taken from the region's own rows only, wherever
  the rows of other regions stand in the table.
\<close>

theorem smoothing_per_region:
  assumes "get_col cvd_df case_column = Inr (map Some ys)"
    and "length ys = length (fips cvd_df)"
    and "fips cvd_df \<noteq> []"
  shows "\<exists>ratios df' sma.
           add_sma_and_ratio counties_FIPS cvd_df case_column = Inr (ratios, df') \<and>
           get_col df' case_column = Inr sma \<and> length sma = length ys \<and>
           (let rows = filter (\<lambda>i. fips cvd_df ! i = Some k) [0..<length (fips cvd_df)];
                r = map (\<lambda>i. ys ! i) rows;
                s = map (\<lambda>i. sma ! i) rows
            in \<forall>i < length rows.
                 s ! i = (if 6 \<le> i then Some (sum_list (take 7 (drop (i - 6) r)) / 7)
                          else None))"
proof -
  let ?fs = "fips cvd_df"
  let ?sma = "sma_column ?fs (map Some ys)"
  let ?rows = "filter (\<lambda>i. ?fs ! i = Some k) [0..<length ?fs]"
  let ?r = "map (\<lambda>i. ys ! i) ?rows"
  let ?s = "map (\<lambda>i. ?sma ! i) ?rows"
  obtain ratios where 1: "add_sma_and_ratio counties_FIPS cvd_df case_column
      = Inr (ratios, set_col cvd_df case_column ?sma)"
    using add_sma_and_ratio_result [OF assms(1,3)] by blast
  have 2: "length ?sma = length ys"
    using assms(2) by (simp add: sma_column_def length_assign_series)
  have r: "select (col_eq ?fs (Some k)) ys = ?r"
    using assms(2) by (simp add: select_col_eq rows_of_filter)
  have "select (col_eq ?fs (Some k)) ?sma = ?s"
    using 2 assms(2) by (simp add: select_col_eq rows_of_filter)
  moreover have "select (col_eq ?fs (Some k)) ?sma = rolling_mean 7 (map Some ?r)"
    using assms(2) by (simp add: sma_column_region select_map r)
  ultimately have s: "?s = rolling_mean 7 (map Some ?r)" by simp
  have 4: "\<forall>i < length ?rows.
             ?s ! i = (if 6 \<le> i then Some (sum_list (take 7 (drop (i - 6) ?r)) / 7) else None)"
  proof (intro allI impI)
    fix i assume "i < length ?rows"
    then have "i < length ?r" by simp
    then show "?s ! i = (if 6 \<le> i then Some (sum_list (take 7 (drop (i - 6) ?r)) / 7) else None)"
      unfolding s by (rule rolling_mean_7_nth)
  qed
  show ?thesis
    using 1 2 4 get_set_col_same [of cvd_df case_column ?sma] by (simp add: Let_def)
qed

theorem smoothing_per_region_witness:
  "get_col example_two_regions ''daily_cases''
     = Inr (map Some [1, 100, 2, 3, 200, 4, 5, 6, 7, 8]) \<and>
   filter (\<lambda>i. fips example_two_regions ! i = Some ''53033'')
     [0..<length (fips example_two_regions)] = [0, 2, 3, 5, 6, 7, 8, 9] \<and>
   (\<exists>ratios df' sma.
      add_sma_and_ratio [''53033''] example_two_regions ''daily_cases'' = Inr (ratios, df') \<and>
      get_col df' ''daily_cases'' = Inr sma \<and> length sma = 10 \<and>
      sma ! 7 = None \<and> sma ! 8 = Some 4 \<and> sma ! 9 = Some 5)"
proof -
  let ?ys = "[1, 100, 2, 3, 200, 4, 5, 6, 7, 8 :: rat]"
  have 1: "get_col example_two_regions ''daily_cases'' = Inr (map Some ?ys)"
    by (simp add: example_two_regions_def get_col_def)
  have 2: "length ?ys = length (fips example_two_regions)"
    by (simp add: example_two_regions_def)
  have 3: "fips example_two_regions \<noteq> []"
    by (simp add: example_two_regions_def)
  have rows: "filter (\<lambda>i. fips example_two_regions ! i = Some ''53033'')
                [0..<length (fips example_two_regions)] = [0, 2, 3, 5, 6, 7, 8, 9]"
    by (simp add: example_two_regions_def upt_rec_numeral)
  obtain ratios df' sma where r:
    "add_sma_and_ratio [''53033''] example_two_regions ''daily_cases'' = Inr (ratios, df')"
    "get_col df' ''daily_cases'' = Inr sma" "length sma = 10"
    "\<forall>i < 8. map (\<lambda>i. sma ! i) [0, 2, 3, 5, 6, 7, 8, 9] ! i
       = (if 6 \<le> i
          then Some (sum_list (take 7 (drop (i - 6) (map (\<lambda>i. ?ys ! i) [0, 2, 3, 5, 6, 7, 8, 9]))) / 7)
          else None)"
    using smoothing_per_region [OF 1 2 3, of "[''53033'']" "''53033''"]
    unfolding rows Let_def by auto
  have "sma ! 7 = None" using r(4) [rule_format, of 5] by simp
  moreover have "sma ! 8 = Some 4" using r(4) [rule_format, of 6] by simp
  moreover have "sma ! 9 = Some 5" using r(4) [rule_format, of 7] by simp
  ultimately show ?thesis using 1 rows r(1,2,3) by blast
qed

section \<open>Peak and recent average\<close>

lemma dropna_select_reference:
  "dropna (select (mask_and (col_eq fs (Some k)) (date_lt ds t)) sma)
   = [v. (Some g, Some d, Some v) \<leftarrow> zip fs (zip ds sma), g = k \<and> d < t]"
proof (induction fs arbitrary: ds sma)
  case Nil
  then show ?case by (simp add: dropna_def select_def mask_and_def col_eq_def)
next
  case (Cons f fs)
  show ?case
  proof (cases ds)
    case Nil
    then show ?thesis by (simp add: dropna_def select_def mask_and_def date_lt_def)
  next
    case ds: (Cons d ds')
    show ?thesis
    proof (cases sma)
      case Nil
      then show ?thesis by (simp add: dropna_def select_def)
    next
      case sma: (Cons v sma')
      have "dropna (select (mask_and (col_eq fs (Some k)) (date_lt ds' t)) sma')
            = [v. (Some g, Some d, Some v) \<leftarrow> zip fs (zip ds' sma'), g = k \<and> d < t]"
        by (rule Cons.IH)
      then show ?thesis
        unfolding ds sma
        by (simp add: dropna_def select_def mask_and_def col_eq_def date_lt_def
            split: option.splits)
    qed
  qed
qed

lemma fold_max_Max: "fold max vs (v::rat) = Max (set (v # vs))"
  by (rule Max.set_eq_fold [symmetric])
lemma select_comparison:
  "select (mask_and (mask_and (col_eq fs (Some k)) (date_gt ds t1)) (date_lt ds t2)) sma
   = map snd [(d, v). (Some g, Some d, v) \<leftarrow> zip fs (zip ds sma), g = k \<and> t1 < d \<and> d < t2]"
proof (induction fs arbitrary: ds sma)
  case Nil
  then show ?case by (simp add: select_def mask_and_def col_eq_def)
next
  case (Cons f fs)
  show ?case
  proof (cases ds)
    case Nil
    then show ?thesis by (simp add: select_def mask_and_def date_lt_def date_gt_def)
  next
    case ds: (Cons d ds')
    show ?thesis
    proof (cases sma)
      case Nil
      then show ?thesis by (simp add: select_def)
    next
      case sma: (Cons v sma')
      have "select (mask_and (mask_and (col_eq fs (Some k)) (date_gt ds' t1)) (date_lt ds' t2)) sma'
            = map snd [(d, v). (Some g, Some d, v) \<leftarrow> zip fs (zip ds' sma'),
                               g = k \<and> t1 < d \<and> d < t2]"
        by (rule Cons.IH)
      then show ?thesis
        unfolding ds sma
        by (simp add: select_def mask_and_def col_eq_def date_lt_def date_gt_def
            split: option.splits)
    qed
  qed
qed

lemma dropna_map_snd: "dropna (map snd w) = [v. (d, Some v) \<leftarrow> w]"
  by (induction w) (auto simp: dropna_def split: option.splits)

lemma nanmean_alt:
  "nanmean xs = (if dropna xs = [] then None
                 else Some (sum_list (dropna xs) / of_nat (length (dropna xs))))"
  by (simp add: nanmean_def split: list.splits)

lemma select_agree:
  "length ys = length xs \<Longrightarrow> (\<forall>i < length xs. i < length m \<longrightarrow> m ! i \<longrightarrow> ys ! i = xs ! i) \<Longrightarrow>
   select m ys = select m xs"
proof (induction m arbitrary: xs ys)
  case Nil
  then show ?case by (simp add: select_def)
next
  case (Cons b m)
  show ?case
  proof (cases xs)
    case Nil
    then show ?thesis using Cons.prems by (simp add: select_def)
  next
    case xs: (Cons x xs')
    then obtain y ys' where ys: "ys = y # ys'" using Cons.prems(1) by (cases ys) auto
    have len: "length ys' = length xs'" using Cons.prems(1) xs ys by simp
    have tl: "\<forall>i < length xs'. i < length m \<longrightarrow> m ! i \<longrightarrow> ys' ! i = xs' ! i"
    proof (intro allI impI)
      fix i assume "i < length xs'" "i < length m" "m ! i"
      then show "ys' ! i = xs' ! i"
        using Cons.prems(2) [rule_format, of "Suc i"] xs ys by simp
    qed
    have hd: "b \<Longrightarrow> y = x"
      using Cons.prems(2) [rule_format, of 0] xs ys by simp
    have "select m ys' = select m xs'" using len tl by (rule Cons.IH)
    then show ?thesis using hd unfolding xs ys by (auto simp: select_def)
  qed
qed

text \<open>
  Claim C7. For every region, the peak that \<^verbatim>\<open>add_sma_and_ratio\<close> computes is the
  maximum of the defined smoothed values of the region's rows dated before 2020-10-01
  (undefined values are left out), and is undefined when there is no such value.
\<close>

theorem peak_is_maximum_before_cutoff:
  "county_prev_peak fs ds sma k = spec_peak fs ds sma k"
proof -
  have "dropna (select (prev_mask fs ds k) sma) = spec_reference_values fs ds sma k"
    unfolding spec_reference_values_def prev_mask_def by (rule dropna_select_reference)
  then show ?thesis
    by (simp add: county_prev_peak_def spec_peak_def nanmax_def fold_max_Max Let_def
        split: list.splits)
qed

theorem peak_is_maximum_before_cutoff_witness:
  "county_prev_peak
     [Some ''53033'', Some ''53061'', Some ''53033'', Some ''53033'', Some ''53033'']
     [Some 18534, Some 18535, Some 18535, None, Some 18536]
     [Some 3, Some 9, Some 5, Some 8, Some 6] ''53033'' = Some 5 \<and>
   spec_reference_values
     [Some ''53033'', Some ''53061'', Some ''53033'', Some ''53033'', Some ''53033'']
     [Some 18534, Some 18535, Some 18535, None, Some 18536]
     [Some 3, Some 9, Some 5, Some 8, Some 6] ''53033'' = [3, 5]"
  using peak_is_maximum_before_cutoff
    [of "[Some ''53033'', Some ''53061'', Some ''53033'', Some ''53033'', Some ''53033'']"
       "[Some 18534, Some 18535, Some 18535, None, Some 18536]"
       "[Some 3, Some 9, Some 5, Some 8, Some 6]" "''53033''"]
  by (simp add: spec_peak_def spec_reference_values_def d_2020_10_01_def)

text \<open>
  The notebook never sorts. A region with eight rows in the comparison window, the
  row of the latest date standing first in the table: the code averages the last
  seven rows of the table and leaves the latest date out, while the last seven
  chronological positions leave the earliest date out.
\<close>

theorem recent_average_unsorted_counterexample:
  "county_curr_ave
     [Some ''53033'', Some ''53033'', Some ''53033'', Some ''53033'',
      Some ''53033'', Some ''53033'', Some ''53033'', Some ''53033'']
     [Some 18547, Some 18540, Some 18541, Some 18542,
      Some 18543, Some 18544, Some 18545, Some 18546]
     [Some 100, Some 1, Some 2, Some 2, Some 2, Some 2, Some 2, Some 2] ''53033''
     = Some (13 / 7) \<and>
   spec_recent_average
     [Some ''53033'', Some ''53033'', Some ''53033'', Some ''53033'',
      Some ''53033'', Some ''53033'', Some ''53033'', Some ''53033'']
     [Some 18547, Some 18540, Some 18541, Some 18542,
      Some 18543, Some 18544, Some 18545, Some 18546]
     [Some 100, Some 1, Some 2, Some 2, Some 2, Some 2, Some 2, Some 2] ''53033''
     = Some 16"
  by (simp add: eval_sma spec_recent_average_def spec_comparison_window_def
      mean_of_last_seven_def)

text \<open>
  Claim C6, as amended. For every region, the recent average that
  \<^verbatim>\<open>add_sma_and_ratio\<close> computes is the mean of the defined smoothed values among the
  last seven rows, in table order, of the region's rows dated strictly between
  2020-10-01 and 2021-02-06; with fewer than seven such rows all of them are taken;
  undefined values are left out; with no defined value it is undefined. When these
  rows stand in the table in ascending order of date, this is the mean over the last
  seven chronological positions of the date-sorted comparison window.
\<close>

theorem recent_average_last_seven_rows:
  "county_curr_ave fs ds sma k = mean_of_last_seven (spec_comparison_window fs ds sma k) \<and>
   (sorted (map fst (spec_comparison_window fs ds sma k))
    \<longrightarrow> county_curr_ave fs ds sma k = spec_recent_average fs ds sma k)"
proof -
  let ?w = "spec_comparison_window fs ds sma k"
  have sel: "select (curr_mask fs ds k) sma = map snd ?w"
    unfolding spec_comparison_window_def curr_mask_def by (rule select_comparison)
  have "last_n 7 (map snd ?w) = map snd (drop (length ?w - 7) ?w)"
    by (simp add: last_n_def drop_map)
  then have vs: "dropna (last_n 7 (map snd ?w)) = [v. (d, Some v) \<leftarrow> drop (length ?w - 7) ?w]"
    by (simp only: dropna_map_snd)
  have "county_curr_ave fs ds sma k = nanmean (last_n 7 (map snd ?w))"
    by (simp only: county_curr_ave_def sel)
  also have "\<dots> = mean_of_last_seven ?w"
    unfolding nanmean_alt vs mean_of_last_seven_def Let_def ..
  finally have 1: "county_curr_ave fs ds sma k = mean_of_last_seven ?w" .
  have 2: "county_curr_ave fs ds sma k = spec_recent_average fs ds sma k"
    if "sorted (map fst ?w)"
  proof -
    have "sort_key fst ?w = ?w" using that by (rule sort_key_id_if_sorted)
    then show ?thesis using 1 by (simp add: spec_recent_average_def)
  qed
  show ?thesis using 1 2 by blast
qed

theorem recent_average_last_seven_rows_witness:
  "sorted (map fst (spec_comparison_window
     [Some ''53033'', Some ''53061'', Some ''53033'', Some ''53033'', Some ''53033'']
     [Some 18535, Some 18537, Some 18537, Some 18538, Some 18539]
     [Some 3, Some 9, None, Some 8, Some 6] ''53033'')) \<and>
   spec_comparison_window
     [Some ''53033'', Some ''53061'', Some ''53033'', Some ''53033'', Some ''53033'']
     [Some 18535, Some 18537, Some 18537, Some 18538, Some 18539]
     [Some 3, Some 9, None, Some 8, Some 6] ''53033''
     = [(18537, None), (18538, Some 8), (18539, Some 6)] \<and>
   county_curr_ave
     [Some ''53033'', Some ''53061'', Some ''53033'', Some ''53033'', Some ''53033'']
     [Some 18535, Some 18537, Some 18537, Some 18538, Some 18539]
     [Some 3, Some 9, None, Some 8, Some 6] ''53033'' = Some 7 \<and>
   spec_recent_average
     [Some ''53033'', Some ''53061'', Some ''53033'', Some ''53033'', Some ''53033'']
     [Some 18535, Some 18537, Some 18537, Some 18538, Some 18539]
     [Some 3, Some 9, None, Some 8, Some 6] ''53033'' = Some 7"
proof -
  let ?fs = "[Some ''53033'', Some ''53061'', Some ''53033'', Some ''53033'', Some ''53033'']"
  let ?ds = "[Some 18535, Some 18537, Some 18537, Some 18538, Some (18539::int)]"
  let ?sma = "[Some 3, Some 9, None, Some 8, Some (6::rat)]"
  note inst = recent_average_last_seven_rows [of ?fs ?ds ?sma "''53033''"]
  have w: "spec_comparison_window ?fs ?ds ?sma ''53033''
           = [(18537, None), (18538, Some 8), (18539, Some 6)]"
    by (simp add: spec_comparison_window_def d_2020_10_01_def d_2021_02_06_def)
  have 1: "sorted (map fst (spec_comparison_window ?fs ?ds ?sma ''53033''))"
    unfolding w by simp
  have m: "mean_of_last_seven [(18537, None), (18538, Some 8), (18539, Some 6)] = Some 7"
    by (simp add: mean_of_last_seven_def)
  have a: "county_curr_ave ?fs ?ds ?sma ''53033'' = Some 7"
    using inst [THEN conjunct1] unfolding w m .
  have b: "spec_recent_average ?fs ?ds ?sma ''53033'' = Some 7"
    using inst [THEN conjunct2, rule_format, OF 1] a by simp
  show ?thesis using 1 w a b by simp
qed

lemma prev_mask_nth:
  "i < length fs \<Longrightarrow> i < length ds \<Longrightarrow>
   prev_mask fs ds k ! i = (fs ! i = Some k \<and> (\<exists>d. ds ! i = Some d \<and> d < d_2020_10_01))"
  by (auto simp: prev_mask_def mask_and_def col_eq_def date_lt_def split: option.splits)

lemma curr_mask_nth:
  "i < length fs \<Longrightarrow> i < length ds \<Longrightarrow>
   curr_mask fs ds k ! i
   = (fs ! i = Some k \<and> (\<exists>d. ds ! i = Some d \<and> d_2020_10_01 < d \<and> d < d_2021_02_06))"
  by (auto simp: curr_mask_def mask_and_def col_eq_def date_lt_def date_gt_def
      split: option.splits)

lemma length_prev_mask: "length (prev_mask fs ds k) = min (length fs) (length ds)"
  by (simp add: prev_mask_def mask_and_def col_eq_def date_lt_def)

lemma length_curr_mask: "length (curr_mask fs ds k) = min (length fs) (length ds)"
  by (simp add: curr_mask_def mask_and_def col_eq_def date_lt_def date_gt_def)

text \<open>
  The moving average is taken before the rows are filtered by date. On the example
  the row dated 2020-10-01 holds 14 and the ratio is 10/7; with 0 in that row and
  every other row unchanged the recent average falls from 10 to 8 and the ratio
  to 8/7.
\<close>

theorem boundary_observation_counterexample:
  "date example_smoothing ! 7 = Some d_2020_10_01 \<and>
   date example_boundary_zero = date example_smoothing \<and>
   fips example_boundary_zero = fips example_smoothing \<and>
   cols example_smoothing
     = [(''daily_cases'', [Some 7, Some 7, Some 7, Some 7, Some 7,
                            Some 7, Some 7, Some 14, Some 21])] \<and>
   cols example_boundary_zero
     = [(''daily_cases'', [Some 7, Some 7, Some 7, Some 7, Some 7,
                            Some 7, Some 7, Some 0, Some 21])] \<and>
   (case add_sma_and_ratio [''53033''] example_smoothing ''daily_cases'' of
      Inl e \<Rightarrow> False
    | Inr (ratios, df') \<Rightarrow> ratios = [NpFloat64 (Fin (10 / 7))]) \<and>
   (case add_sma_and_ratio [''53033''] example_boundary_zero ''daily_cases'' of
      Inl e \<Rightarrow> False
    | Inr (ratios, df') \<Rightarrow> ratios = [NpFloat64 (Fin (8 / 7))])"
  by (simp add: example_smoothing_def example_boundary_zero_def eval_sma Let_def)

text \<open>
  Claim C10, as amended. A row dated exactly 2020-10-01 is selected neither for the
  peak (the filter is \<^verbatim>\<open>date < '2020-10-01'\<close>) nor for the recent average (the filter
  is \<^verbatim>\<open>date > '2020-10-01'\<close>), for every region and every variant; so the smoothed
  value such a row holds contributes to neither: two smoothed columns that differ
  only in rows of that date give the same peak and the same recent average. The
  observation of that date itself is not excluded: it enters the moving average of
  the six rows of its region that follow it.
\<close>

theorem boundary_date_in_neither_window:
  "(\<forall>i. i < length fs \<and> i < length ds \<and> ds ! i = Some d_2020_10_01
        \<longrightarrow> \<not> prev_mask fs ds k ! i \<and> \<not> curr_mask fs ds k ! i) \<and>
   (length sma' = length sma \<and>
    (\<forall>i < length sma. ds ! i \<noteq> Some d_2020_10_01 \<longrightarrow> sma' ! i = sma ! i)
    \<longrightarrow> county_prev_peak fs ds sma' k = county_prev_peak fs ds sma k \<and>
        county_curr_ave fs ds sma' k = county_curr_ave fs ds sma k)"
proof (intro conjI allI impI)
  fix i assume "i < length fs \<and> i < length ds \<and> ds ! i = Some d_2020_10_01"
  then show "\<not> prev_mask fs ds k ! i" "\<not> curr_mask fs ds k ! i"
    by (simp_all add: prev_mask_nth curr_mask_nth)
next
  assume a: "length sma' = length sma \<and>
    (\<forall>i < length sma. ds ! i \<noteq> Some d_2020_10_01 \<longrightarrow> sma' ! i = sma ! i)"
  have "select (prev_mask fs ds k) sma' = select (prev_mask fs ds k) sma"
  proof (rule select_agree)
    show "length sma' = length sma" using a by simp
    show "\<forall>i<length sma. i < length (prev_mask fs ds k) \<longrightarrow> prev_mask fs ds k ! i
            \<longrightarrow> sma' ! i = sma ! i"
      using a by (auto simp: length_prev_mask prev_mask_nth)
  qed
  then show "county_prev_peak fs ds sma' k = county_prev_peak fs ds sma k"
    by (simp add: county_prev_peak_def)
  have "select (curr_mask fs ds k) sma' = select (curr_mask fs ds k) sma"
  proof (rule select_agree)
    show "length sma' = length sma" using a by simp
    show "\<forall>i<length sma. i < length (curr_mask fs ds k) \<longrightarrow> curr_mask fs ds k ! i
            \<longrightarrow> sma' ! i = sma ! i"
      using a by (auto simp: length_curr_mask curr_mask_nth)
  qed
  then show "county_curr_ave fs ds sma' k = county_curr_ave fs ds sma k"
    by (simp add: county_curr_ave_def)
qed

theorem boundary_date_in_neither_window_witness:
  "[Some 18535, Some 18536, Some 18537] ! 1 = Some d_2020_10_01 \<and>
   \<not> prev_mask [Some ''53033'', Some ''53033'', Some ''53033'']
       [Some 18535, Some 18536, Some 18537] ''53033'' ! 1 \<and>
   \<not> curr_mask [Some ''53033'', Some ''53033'', Some ''53033'']
       [Some 18535, Some 18536, Some 18537] ''53033'' ! 1 \<and>
   county_prev_peak [Some ''53033'', Some ''53033'', Some ''53033'']
       [Some 18535, Some 18536, Some 18537] [Some 4, Some 1000, Some 6] ''53033'' = Some 4 \<and>
   county_prev_peak [Some ''53033'', Some ''53033'', Some ''53033'']
       [Some 18535, Some 18536, Some 18537] [Some 4, Some 5, Some 6] ''53033'' = Some 4 \<and>
   county_curr_ave [Some ''53033'', Some ''53033'', Some ''53033'']
       [Some 18535, Some 18536, Some 18537] [Some 4, Some 1000, Some 6] ''53033'' = Some 6 \<and>
   county_curr_ave [Some ''53033'', Some ''53033'', Some ''53033'']
       [Some 18535, Some 18536, Some 18537] [Some 4, Some 5, Some 6] ''53033'' = Some 6"
proof -
  let ?fs = "[Some ''53033'', Some ''53033'', Some ''53033'']"
  let ?ds = "[Some 18535, Some 18536, Some (18537::int)]"
  let ?a = "[Some 4, Some 1000, Some (6::rat)]"
  let ?b = "[Some 4, Some 5, Some (6::rat)]"
  note inst = boundary_date_in_neither_window [of ?fs ?ds "''53033''" ?a ?b]
  have d: "?ds ! 1 = Some d_2020_10_01" by (simp add: d_2020_10_01_def)
  have m: "\<not> prev_mask ?fs ?ds ''53033'' ! 1 \<and> \<not> curr_mask ?fs ?ds ''53033'' ! 1"
    using inst [THEN conjunct1, rule_format, of 1] d by simp
  have agree: "length ?a = length ?b \<and> (\<forall>i < length ?b. ?ds ! i \<noteq> Some d_2020_10_01 \<longrightarrow> ?a ! i = ?b ! i)"
    by (simp add: d_2020_10_01_def less_Suc_eq numeral_3_eq_3)
  have e: "county_prev_peak ?fs ?ds ?a ''53033'' = county_prev_peak ?fs ?ds ?b ''53033'' \<and>
           county_curr_ave ?fs ?ds ?a ''53033'' = county_curr_ave ?fs ?ds ?b ''53033''"
    using inst [THEN conjunct2, rule_format, OF agree] .
  have p: "county_prev_peak ?fs ?ds ?b ''53033'' = Some 4"
    by (simp add: eval_sma)
  have c: "county_curr_ave ?fs ?ds ?b ''53033'' = Some 6"
    by (simp add: eval_sma)
  show ?thesis using d m e p c by simp
qed

section \<open>Ratio\<close>

text \<open>
  What \<^verbatim>\<open>safe_div\<close> returns on the scalars it is given. The handler of
  ZeroDivisionError is reached by Python numbers only; a peak of zero comes from
  \<^verbatim>\<open>Series.max()\<close> as a \<^verbatim>\<open>numpy.float64\<close>, and the division yields NaN or an infinity.
\<close>

lemma safe_div_series:
  assumes "safe_div (series_scalar ave) (series_scalar peak) = Inr q"
  shows "(\<forall>a p. ave = Some a \<and> peak = Some p \<and> p \<noteq> 0 \<longrightarrow> value_of q = Fin (a / p)) \<and>
         (peak = None \<longrightarrow> value_of q = NaN) \<and>
         (ave = None \<and> peak \<noteq> Some 0 \<longrightarrow> value_of q = NaN)"
  using assms
  by (auto simp: safe_div_def truediv_def series_scalar_def split: option.splits)

lemma safe_div_zero_peak:
  "safe_div (series_scalar (Some a)) (series_scalar (Some 0))
   = Inr (NpFloat64 (if a = 0 then NaN else if 0 < a then PInf else NInf))"
  by (simp add: safe_div_def truediv_def series_scalar_def)

lemma safe_div_python_zero:
  "safe_div (PyFloat (Fin a)) (PyFloat (Fin 0)) = Inr (PyInt 0)"
  by (simp add: safe_div_def truediv_def)

text \<open>
  A region with seven rows before 2020-10-01 and none after it: its peak is 7, its
  recent average is undefined, and the ratio returned is NaN, not 0.
\<close>

theorem ratio_undefined_counterexample:
  "add_sma_and_ratio [''53033''] example_no_recent ''daily_cases''
   = Inr ([NpFloat64 NaN],
          \<lparr>fips = fips example_no_recent, date = date example_no_recent,
           cols = [(''daily_cases'', [None, None, None, None, None, None, Some 7])]\<rparr>) \<and>
   county_prev_peak (fips example_no_recent) (date example_no_recent)
     [None, None, None, None, None, None, Some 7] ''53033'' = Some 7 \<and>
   county_curr_ave (fips example_no_recent) (date example_no_recent)
     [None, None, None, None, None, None, Some 7] ''53033'' = None"
  by (simp add: example_no_recent_def eval_sma Let_def)

text \<open>
  Claim C1, as amended. For every table with at least one row that has the column,
  and for every region of the roster, \<^verbatim>\<open>add_sma_and_ratio\<close> raises nothing and returns
  one ratio per region: the recent average divided by the peak when both are defined
  and the peak is not zero, and the undefined value NaN (not 0) when the peak is
  undefined, or when the recent average is undefined and the peak is not zero.
  (On a table with no row \<^verbatim>\<open>pd.concat\<close> raises ValueError: lemma
  \<open>add_sma_and_ratio_no_rows\<close>.)
\<close>

theorem ratio_of_recent_average_to_peak:
  assumes "get_col cvd_df case_column = Inr xs" and "fips cvd_df \<noteq> []"
  shows "\<exists>ratios df' sma.
           add_sma_and_ratio counties_FIPS cvd_df case_column = Inr (ratios, df') \<and>
           get_col df' case_column = Inr sma \<and>
           length ratios = length counties_FIPS \<and>
           (\<forall>i < length counties_FIPS.
              let peak = county_prev_peak (fips df') (date df') sma (counties_FIPS ! i);
                  ave = county_curr_ave (fips df') (date df') sma (counties_FIPS ! i)
              in (\<forall>a p. ave = Some a \<and> peak = Some p \<and> p \<noteq> 0
                          \<longrightarrow> value_of (ratios ! i) = Fin (a / p)) \<and>
                 (peak = None \<longrightarrow> value_of (ratios ! i) = NaN) \<and>
                 (ave = None \<and> peak \<noteq> Some 0 \<longrightarrow> value_of (ratios ! i) = NaN))"
proof -
  let ?sma = "sma_column (fips cvd_df) xs"
  let ?df' = "set_col cvd_df case_column ?sma"
  obtain ratios where r:
    "add_sma_and_ratio counties_FIPS cvd_df case_column = Inr (ratios, ?df')"
    "length ratios = length counties_FIPS"
    "\<forall>i < length counties_FIPS.
       safe_div (series_scalar (county_curr_ave (fips cvd_df) (date cvd_df) ?sma (counties_FIPS ! i)))
                (series_scalar (county_prev_peak (fips cvd_df) (date cvd_df) ?sma (counties_FIPS ! i)))
       = Inr (ratios ! i)"
    using add_sma_and_ratio_result [OF assms] by blast
  have "\<forall>i < length counties_FIPS.
          let peak = county_prev_peak (fips ?df') (date ?df') ?sma (counties_FIPS ! i);
              ave = county_curr_ave (fips ?df') (date ?df') ?sma (counties_FIPS ! i)
          in (\<forall>a p. ave = Some a \<and> peak = Some p \<and> p \<noteq> 0
                      \<longrightarrow> value_of (ratios ! i) = Fin (a / p)) \<and>
             (peak = None \<longrightarrow> value_of (ratios ! i) = NaN) \<and>
             (ave = None \<and> peak \<noteq> Some 0 \<longrightarrow> value_of (ratios ! i) = NaN)"
    unfolding Let_def fips_set_col date_set_col
    using r(3) safe_div_series by blast
  then show ?thesis
    using r(1,2) get_set_col_same [of cvd_df case_column ?sma] by blast
qed

theorem ratio_of_recent_average_to_peak_witness:
  "get_col example_smoothing ''daily_cases''
     = Inr [Some 7, Some 7, Some 7, Some 7, Some 7, Some 7, Some 7, Some 14, Some 21] \<and>
   (\<exists>ratios df' sma.
      add_sma_and_ratio [''53033''] example_smoothing ''daily_cases'' = Inr (ratios, df') \<and>
      get_col df' ''daily_cases'' = Inr sma \<and>
      county_prev_peak (fips df') (date df') sma ''53033'' = Some 7 \<and>
      county_curr_ave (fips df') (date df') sma ''53033'' = Some 10 \<and>
      value_of (ratios ! 0) = Fin (10 / 7))"
proof -
  have 1: "get_col example_smoothing ''daily_cases''
     = Inr [Some 7, Some 7, Some 7, Some 7, Some 7, Some 7, Some 7, Some 14, Some 21]"
    by (simp add: example_smoothing_def get_col_def)
  have ne: "fips example_smoothing \<noteq> []"
    by (simp add: example_smoothing_def)
  obtain ratios df' sma where r:
    "add_sma_and_ratio [''53033''] example_smoothing ''daily_cases'' = Inr (ratios, df')"
    "get_col df' ''daily_cases'' = Inr sma"
    "\<forall>i < length [''53033''].
       let peak = county_prev_peak (fips df') (date df') sma ([''53033''] ! i);
           ave = county_curr_ave (fips df') (date df') sma ([''53033''] ! i)
       in (\<forall>a p. ave = Some a \<and> peak = Some p \<and> p \<noteq> 0
                   \<longrightarrow> value_of (ratios ! i) = Fin (a / p)) \<and>
          (peak = None \<longrightarrow> value_of (ratios ! i) = NaN) \<and>
          (ave = None \<and> peak \<noteq> Some 0 \<longrightarrow> value_of (ratios ! i) = NaN)"
    using ratio_of_recent_average_to_peak [OF 1 ne, of "[''53033'']"] by blast
  have e: "add_sma_and_ratio [''53033''] example_smoothing ''daily_cases''
    = Inr ([NpFloat64 (Fin (10 / 7))],
        \<lparr>fips = fips example_smoothing, date = date example_smoothing,
         cols = [(''daily_cases'', [None, None, None, None, None, None, Some 7, Some 8, Some 10])]\<rparr>)"
    by (simp add: example_smoothing_def eval_sma Let_def)
  have df': "df' = \<lparr>fips = fips example_smoothing, date = date example_smoothing,
         cols = [(''daily_cases'', [None, None, None, None, None, None, Some 7, Some 8, Some 10])]\<rparr>"
    using r(1) e by simp
  have sma: "sma = [None, None, None, None, None, None, Some 7, Some 8, Some 10]"
    using r(2) unfolding df' by (simp add: get_col_def)
  have p: "county_prev_peak (fips df') (date df') sma ''53033'' = Some 7"
    unfolding df' sma by (simp add: example_smoothing_def eval_sma)
  have a: "county_curr_ave (fips df') (date df') sma ''53033'' = Some 10"
    unfolding df' sma by (simp add: example_smoothing_def eval_sma)
  have "value_of (ratios ! 0) = Fin (10 / 7)"
    using r(3) [rule_format, of 0] p a by (simp add: Let_def)
  then show ?thesis using 1 r(1,2) p a by blast
qed

section \<open>The table after a call\<close>

text \<open>
  \<^verbatim>\<open>add_sma_and_ratio\<close> assigns the moving average to the column it was asked to read.
  On the example the column \<^verbatim>\<open>daily_cases\<close> holds other values after the call than
  before, and a second call on the table gives another ratio than the first.
\<close>

theorem second_call_counterexample:
  "get_col example_smoothing ''daily_cases''
     = Inr [Some 7, Some 7, Some 7, Some 7, Some 7, Some 7, Some 7, Some 14, Some 21] \<and>
   (case add_sma_and_ratio [''53033''] example_smoothing ''daily_cases'' of
      Inl e \<Rightarrow> False
    | Inr (ratios1, df1) \<Rightarrow>
        ratios1 = [NpFloat64 (Fin (10 / 7))] \<and>
        get_col df1 ''daily_cases''
          = Inr [None, None, None, None, None, None, Some 7, Some 8, Some 10] \<and>
        (case add_sma_and_ratio [''53033''] df1 ''daily_cases'' of
           Inl e \<Rightarrow> False
         | Inr (ratios2, df2) \<Rightarrow> ratios2 = [PyFloat NaN]))"
  by (simp add: example_smoothing_def eval_sma Let_def)

text \<open>
  Claim C3, as amended. On every table with at least one row that has the column,
  \<^verbatim>\<open>add_sma_and_ratio\<close> overwrites the column \<^verbatim>\<open>case_column\<close> of the table it is given
  with the moving average of that column, region by region, and leaves the region
  keys, the dates and every other column as they were.
\<close>

theorem add_sma_and_ratio_overwrites_case_column:
  assumes "get_col cvd_df case_column = Inr xs" and "fips cvd_df \<noteq> []"
  shows "\<exists>ratios df'.
           add_sma_and_ratio counties_FIPS cvd_df case_column = Inr (ratios, df') \<and>
           fips df' = fips cvd_df \<and> date df' = date cvd_df \<and>
           get_col df' case_column = Inr (sma_column (fips cvd_df) xs) \<and>
           (\<forall>c. c \<noteq> case_column \<longrightarrow> get_col df' c = get_col cvd_df c)"
proof -
  obtain ratios where
    "add_sma_and_ratio counties_FIPS cvd_df case_column
       = Inr (ratios, set_col cvd_df case_column (sma_column (fips cvd_df) xs))"
    using add_sma_and_ratio_result [OF assms] by blast
  then show ?thesis
    using fips_set_col date_set_col get_set_col_same get_set_col_other by blast
qed

theorem add_sma_and_ratio_overwrites_case_column_witness:
  "get_col example_two_regions ''daily_cases''
     = Inr [Some 1, Some 100, Some 2, Some 3, Some 200, Some 4, Some 5, Some 6, Some 7, Some 8] \<and>
   fips example_two_regions \<noteq> [] \<and>
   (\<exists>ratios df'.
      add_sma_and_ratio [''53033''] example_two_regions ''daily_cases'' = Inr (ratios, df') \<and>
      fips df' = fips example_two_regions \<and> date df' = date example_two_regions \<and>
      get_col df' ''daily_cases''
        = Inr [None, None, None, None, None, None, None, None, Some 4, Some 5] \<and>
      get_col df' ''cases''
        = Inr [Some 1, Some 100, Some 3, Some 6, Some 300,
               Some 10, Some 15, Some 21, Some 28, Some 36])"
proof -
  let ?xs = "[Some 1, Some 100, Some 2, Some 3, Some 200, Some 4, Some 5, Some 6, Some 7,
              Some (8::rat)]"
  have 1: "get_col example_two_regions ''daily_cases'' = Inr ?xs"
    by (simp add: example_two_regions_def get_col_def)
  have ne: "fips example_two_regions \<noteq> []"
    by (simp add: example_two_regions_def)
  have 2: "sma_column (fips example_two_regions) ?xs
           = [None, None, None, None, None, None, None, None, Some 4, Some 5]"
    by (simp add: example_two_regions_def eval_sma)
  have 3: "get_col example_two_regions ''cases''
           = Inr [Some 1, Some 100, Some 3, Some 6, Some 300,
                  Some 10, Some 15, Some 21, Some 28, Some 36]"
    by (simp add: example_two_regions_def get_col_def)
  obtain ratios df' where r:
    "add_sma_and_ratio [''53033''] example_two_regions ''daily_cases'' = Inr (ratios, df')"
    "fips df' = fips example_two_regions" "date df' = date example_two_regions"
    "get_col df' ''daily_cases'' = Inr (sma_column (fips example_two_regions) ?xs)"
    "\<forall>c. c \<noteq> ''daily_cases'' \<longrightarrow> get_col df' c = get_col example_two_regions c"
    using add_sma_and_ratio_overwrites_case_column [OF 1 ne, of "[''53033'']"] by blast
  have "get_col df' ''cases'' = get_col example_two_regions ''cases''"
    using r(5) [rule_format, of "''cases''"] by simp
  then have 4: "get_col df' ''cases''
      = Inr [Some 1, Some 100, Some 3, Some 6, Some 300,
             Some 10, Some 15, Some 21, Some 28, Some 36]"
    using 3 by simp
  show ?thesis
    using 1 ne r(1,2,3) r(4) [unfolded 2] 4 by blast
qed

section \<open>Recalibration\<close>

text \<open>
  On a column \<open>xs\<close> the expression of the recalibration cell multiplies the value of
  a row by \<open>a\<close> when the row's date is before the threshold and by \<open>b\<close> otherwise.
  The cell applies it to the column \<^verbatim>\<open>cases_new\<close>, which is neither in the file read
  nor created by the notebook: the incremental series is \<^verbatim>\<open>daily_cases\<close>.
\<close>

lemma recalibrate_nth:
  assumes "length ds = length xs" and "i < length xs"
  shows "recalibrate ds t a b xs ! i
         = map_option (\<lambda>v. v * (if (case ds ! i of None \<Rightarrow> False | Some d \<Rightarrow> d < t) then a else b))
             (xs ! i)"
  using assms by (simp add: recalibrate_def np_where_def col_mul_def date_lt_def)

lemma recalibration_cell_KeyError:
  "map_of (cols covid_df) ''cases_new'' = None \<Longrightarrow>
   recalibration_cell covid_df = Inl (KeyError ''cases_new'')"
  by (simp add: recalibration_cell_def get_col_def)

text \<open>
  Claim C2. On the table the incremental-cases cell returns, the recalibration cell
  raises KeyError for \<^verbatim>\<open>cases_new\<close> and creates no recalibrated column.
\<close>

theorem recalibration_reads_cases_new:
  "(case daily_cases_cell example_cases of
      Inl e \<Rightarrow> False
    | Inr covid_df \<Rightarrow>
        get_col covid_df ''daily_cases'' = Inr [Some 0, Some 0, Some 2, Some 0, Some 3] \<and>
        recalibration_cell covid_df = Inl (KeyError ''cases_new''))"
  by (simp add: example_cases_def eval_defs recalibration_cell_def)

end
